theory Spec2Isabelle
  imports Complex_Main "HOL-Library.Multiset"
begin

section \<open>Data model of the game state (game/state.ts)\<close>

text \<open>
  The reducer of the chess UI keeps a game state next to a handle of the rules engine
  (the \<^verbatim>\<open>Chess\<close> class of chess.js). The engine is an external library, so it is a
  parameter of the model: a record of the operations the reducer calls, over an abstract
  type \<open>'c\<close> of engine states. An operation that mutates the handle returns the new
  engine state; \<^verbatim>\<open>chess.move\<close> throwing is \<open>None\<close>, and so is \<^verbatim>\<open>chess.undo\<close> returning
  \<^verbatim>\<open>null\<close>.

  JavaScript numbers are modelled as reals (no rounding), a \<^verbatim>\<open>Record<Color, X>\<close> as a
  pair of an entry for \<^verbatim>\<open>'w'\<close> and one for \<^verbatim>\<open>'b'\<close>, and the object \<^verbatim>\<open>pieceUids\<close> as a
  map from square names to identifiers. The reducer reads \<^verbatim>\<open>pieceUids\<close> by key only, so
  storing \<^verbatim>\<open>undefined\<close> under a key and deleting the key are the same map.
\<close>

datatype Color = White | Black

datatype PieceSymbol = Pawn | Knight | Bishop | Rook | Queen | King

datatype 'a PerColor = PerColor (of_w: 'a) (of_b: 'a)

fun at_color :: "'a PerColor \<Rightarrow> Color \<Rightarrow> 'a" where
  "at_color r White = of_w r"
| "at_color r Black = of_b r"

fun put_color :: "'a PerColor \<Rightarrow> Color \<Rightarrow> 'a \<Rightarrow> 'a PerColor" where
  "put_color r White v = PerColor v (of_b r)"
| "put_color r Black v = PerColor (of_w r) v"

text \<open>The fields of a chess.js \<^verbatim>\<open>Move\<close> that the reducer reads or that identify the move.\<close>

record ChessMove =
  m_color :: Color
  m_from :: string
  m_to :: string
  m_piece :: PieceSymbol
  m_captured :: "PieceSymbol option"
  m_promotion :: "PieceSymbol option"
  m_flags :: string

text \<open>A cell of \<^verbatim>\<open>chess.board()\<close>, and a cell of the state's board projection.\<close>

record Cell =
  c_square :: string
  c_type :: PieceSymbol
  c_color :: Color

record BoardCell =
  b_type :: PieceSymbol
  b_team :: Color
  b_uid :: "string option"

type_synonym Board = "BoardCell option list list"

record 'c Chess =
  chess_new :: 'c
  chess_move :: "'c \<Rightarrow> string \<Rightarrow> string \<Rightarrow> PieceSymbol option \<Rightarrow> (ChessMove \<times> 'c) option"
  chess_undo :: "'c \<Rightarrow> (ChessMove \<times> 'c) option"
  chess_turn :: "'c \<Rightarrow> Color"
  chess_isCheck :: "'c \<Rightarrow> bool"
  chess_isCheckmate :: "'c \<Rightarrow> bool"
  chess_isDraw :: "'c \<Rightarrow> bool"
  chess_isInsufficientMaterial :: "'c \<Rightarrow> bool"
  chess_isThreefoldRepetition :: "'c \<Rightarrow> bool"
  chess_board :: "'c \<Rightarrow> Cell option list list"
  chess_fen :: "'c \<Rightarrow> string"

record Timer =
  t_set :: "real option"
  t_time :: real

record MoveUID =
  taken :: "string option"

datatype PlayerType = Local | Bot

record Player =
  p_name :: string
  p_type :: PlayerType

record ChessState =
  timers :: "Timer PerColor"
  moves :: "ChessMove list option"
  captured :: "PieceSymbol list PerColor"
  board :: Board
  turn :: Color
  check :: "bool PerColor"
  fen :: string
  complete :: "string option"
  redoStack :: "ChessMove list"
  pieceUids :: "string \<rightharpoonup> string"
  pieceUidTracker :: "MoveUID list"
  paused :: bool
  players :: "Player PerColor"

text \<open>
  The public actions (\<^verbatim>\<open>ChessAction\<close>) and the one the reducer sends to itself
  (\<^verbatim>\<open>InternalChessAction\<close>). The \<^verbatim>\<open>chess\<close> field of an action is the engine handle; the
  model passes the engine state beside the action.
\<close>

datatype ChessAction =
  Move string string "PieceSymbol option" real
| Undo real
| Redo real
| Pause "real option"
| CheckTimers real

datatype InternalChessAction = EndMove real

subsection \<open>JavaScript truthiness of the optional fields the reducer tests\<close>

text \<open>
  \<^verbatim>\<open>if (x)\<close> on an optional number is false for \<^verbatim>\<open>undefined\<close> and for \<^verbatim>\<open>0\<close>; on an
  optional string it is false for \<^verbatim>\<open>undefined\<close> and for the empty string.
\<close>

fun truthy_num :: "real option \<Rightarrow> bool" where
  "truthy_num None = False"
| "truthy_num (Some v) = (v \<noteq> 0)"

fun truthy_str :: "string option \<Rightarrow> bool" where
  "truthy_str None = False"
| "truthy_str (Some s) = (s \<noteq> [])"

section \<open>Helpers\<close>

definition getBoard :: "'c Chess \<Rightarrow> 'c \<Rightarrow> (string \<rightharpoonup> string) \<Rightarrow> Board" where
  "getBoard E chess uids =
     map (\<lambda>row. map (\<lambda>value. case value of
                        None \<Rightarrow> None
                      | Some v \<Rightarrow> Some \<lparr>b_type = c_type v, b_team = c_color v,
                                        b_uid = uids (c_square v)\<rparr>) row)
         (chess_board E chess)"

text \<open>The enum \<^verbatim>\<open>CompleteFlag\<close>.\<close>

definition CHECKMATE :: char where "CHECKMATE = CHR ''c''"
definition DRAW :: char where "DRAW = CHR ''d''"
definition THREEFOLD_REPITITION :: char where "THREEFOLD_REPITITION = CHR ''r''"
definition INSUFFICIENT_MATERIAL :: char where "INSUFFICIENT_MATERIAL = CHR ''m''"
definition OUT_OF_TIME :: char where "OUT_OF_TIME = CHR ''t''"

text \<open>\<^verbatim>\<open>result += flag\<close> under a condition, one statement of \<^verbatim>\<open>getCompleteFlag\<close>.\<close>

definition add_flag :: "bool \<Rightarrow> char \<Rightarrow> string \<Rightarrow> string" where
  "add_flag cond flag result = (if cond then result @ [flag] else result)"

definition getCompleteFlag :: "'c Chess \<Rightarrow> 'c \<Rightarrow> bool \<Rightarrow> string option" where
  "getCompleteFlag E chess outOfTime =
     (let result = [];
          result = add_flag outOfTime OUT_OF_TIME result;
          result = add_flag (chess_isCheckmate E chess) CHECKMATE result;
          result = add_flag (chess_isDraw E chess) DRAW result;
          result = add_flag (chess_isInsufficientMaterial E chess) INSUFFICIENT_MATERIAL result;
          result = add_flag (chess_isThreefoldRepetition E chess) THREEFOLD_REPITITION result
      in if length result = 0 then None else Some result)"

text \<open>The template literal \<^verbatim>\<open>`${i}`\<close> of a natural number: its decimal digits.\<close>

fun toString :: "nat \<Rightarrow> string" where
  "toString n =
     (if n < 10 then [''0123456789'' ! n]
      else toString (n div 10) @ [''0123456789'' ! (n mod 10)])"

declare toString.simps [simp del]

definition createChessState :: "'c Chess \<Rightarrow> real \<Rightarrow> Player PerColor \<Rightarrow> ChessState" where
  "createChessState E len pl =
     (let chess = chess_new E;
          uids = fold (\<lambda>(i, key) m. case key of None \<Rightarrow> m
                                      | Some k \<Rightarrow> m(c_square k \<mapsto> toString i))
                      (enumerate 0 (concat (chess_board E chess))) Map.empty
      in \<lparr>timers = PerColor \<lparr>t_set = None, t_time = len * 60\<rparr>
                             \<lparr>t_set = None, t_time = len * 60\<rparr>,
          moves = Some [],
          captured = PerColor [] [],
          board = getBoard E chess uids,
          turn = White,
          check = PerColor False False,
          fen = chess_fen E chess,
          complete = None,
          redoStack = [],
          pieceUids = uids,
          pieceUidTracker = [],
          paused = False,
          players = pl\<rparr>)"

section \<open>The reducer\<close>

subsection \<open>checkTimers\<close>

definition checkTimers :: "'c Chess \<Rightarrow> ChessState \<Rightarrow> 'c \<Rightarrow> real \<Rightarrow> ChessState" where
  "checkTimers E state chess now =
     (let tw = of_w (timers state); tb = of_b (timers state);
          tm = (if truthy_num (t_set tw) then tw else tb)
      in case t_set tm of
           None \<Rightarrow> state
         | Some st \<Rightarrow>
             if st = 0 then state
             else let elapsed = (now - st) / 1000
                  in if t_time tm - elapsed \<le> 0
                     then state\<lparr>complete := getCompleteFlag E chess True,
                                timers := PerColor
                                  \<lparr>t_set = None,
                                   t_time = (if truthy_num (t_set tw) then 0 else t_time tw)\<rparr>
                                  \<lparr>t_set = None,
                                   t_time = (if truthy_num (t_set tb) then 0 else t_time tb)\<rparr>\<rparr>
                     else state)"

subsection \<open>endMove\<close>

definition endMove :: "'c Chess \<Rightarrow> ChessState \<Rightarrow> 'c \<Rightarrow> real \<Rightarrow> ChessState" where
  "endMove E state chess time =
     (let tw = of_w (timers state); tb = of_b (timers state);
          tms = (if chess_turn E chess = Black
                 then PerColor
                        \<lparr>t_set = None,
                         t_time = (case t_set tw of
                                     None \<Rightarrow> t_time tw
                                   | Some ws \<Rightarrow> if ws = 0 then t_time tw
                                               else t_time tw - (time - ws) / 1000)\<rparr>
                        (tb\<lparr>t_set := Some time\<rparr>)
                 else PerColor
                        (tw\<lparr>t_set := Some time\<rparr>)
                        \<lparr>t_set = None,
                         t_time = (case t_set tb of
                                     None \<Rightarrow> t_time tb
                                   | Some bs \<Rightarrow> if bs = 0 then t_time tb
                                               else t_time tb - (time - bs) / 1000)\<rparr>)
      in state\<lparr>timers := tms,
               turn := chess_turn E chess,
               board := getBoard E chess (pieceUids state),
               check := put_color (PerColor False False) (chess_turn E chess) (chess_isCheck E chess),
               complete := getCompleteFlag E chess False\<rparr>)"

subsection \<open>move\<close>

text \<open>\<^verbatim>\<open>move.from[1]\<close> inside a template literal: the second character, or the text
  \<^verbatim>\<open>undefined\<close> when the string is shorter.\<close>

definition rank_of :: "string \<Rightarrow> string" where
  "rank_of sq = (if 1 < length sq then [sq ! 1] else ''undefined'')"

definition has_flag :: "ChessMove \<Rightarrow> char \<Rightarrow> bool" where
  "has_flag mv f = (f \<in> set (m_flags mv))"

definition capture_like :: "ChessMove \<Rightarrow> bool" where
  "capture_like mv = (m_captured mv \<noteq> None \<or> has_flag mv (CHR ''e''))"

text \<open>The pair of statements \<^verbatim>\<open>uids[dst] = uids[src]; delete uids[src]\<close>.\<close>

definition relocate :: "(string \<rightharpoonup> string) \<Rightarrow> string \<Rightarrow> string \<Rightarrow> (string \<rightharpoonup> string)" where
  "relocate uids src dst = (uids(dst := uids src))(src := None)"

text \<open>The branch on the move's flags in \<^verbatim>\<open>case 'move'\<close>: the new identity map and the
  record pushed on \<^verbatim>\<open>pieceUidTracker\<close>.\<close>

definition move_uids :: "(string \<rightharpoonup> string) \<Rightarrow> ChessMove \<Rightarrow> (string \<rightharpoonup> string) \<times> MoveUID" where
  "move_uids uids mv =
     (if capture_like mv then
        (relocate uids (m_from mv) (m_to mv), \<lparr>taken = uids (m_to mv)\<rparr>)
      else if has_flag mv (CHR ''k'') then
        (let castleFrom = CHR ''h'' # rank_of (m_from mv);
             castleTo = CHR ''f'' # rank_of (m_from mv)
         in (relocate (relocate uids (m_from mv) (m_to mv)) castleFrom castleTo,
             \<lparr>taken = None\<rparr>))
      else if has_flag mv (CHR ''q'') then
        (let castleFrom = CHR ''a'' # rank_of (m_from mv);
             castleTo = CHR ''d'' # rank_of (m_from mv)
         in (relocate (relocate uids (m_from mv) (m_to mv)) castleFrom castleTo,
             \<lparr>taken = None\<rparr>))
      else
        (relocate uids (m_from mv) (m_to mv), \<lparr>taken = None\<rparr>))"

definition reduce_move ::
  "'c Chess \<Rightarrow> ChessState \<Rightarrow> 'c \<Rightarrow> string \<Rightarrow> string \<Rightarrow> PieceSymbol option \<Rightarrow> real \<Rightarrow> ChessState \<times> 'c" where
  "reduce_move E state0 chess from to promotion time =
     (let state = checkTimers E state0 chess time
      in if truthy_str (complete state) then (state, chess)
         else
           let state = state\<lparr>redoStack := []\<rparr>
           in case chess_move E chess from to promotion of
                None \<Rightarrow> (state, chess)
              | Some (mv, chess') \<Rightarrow>
                  let (uids, tracked) = move_uids (pieceUids state) mv;
                      state = state\<lparr>pieceUids := uids,
                                    pieceUidTracker := pieceUidTracker state @ [tracked],
                                    moves := Some ((case moves state of None \<Rightarrow> [] | Some ms \<Rightarrow> ms) @ [mv])\<rparr>;
                      state = (case m_captured mv of
                                 None \<Rightarrow> state
                               | Some cp \<Rightarrow>
                                   state\<lparr>captured := put_color (captured state) (m_color mv)
                                                        (at_color (captured state) (m_color mv) @ [cp])\<rparr>)
                  in (endMove E state chess' time, chess'))"

subsection \<open>undo\<close>

text \<open>\<^verbatim>\<open>Array.prototype.indexOf\<close> (the first index, or \<open>-1\<close>) and the filter that drops
  one index.\<close>

fun indexOf :: "'a list \<Rightarrow> 'a \<Rightarrow> int" where
  "indexOf [] x = -1"
| "indexOf (y # ys) x =
     (if y = x then 0 else (let i = indexOf ys x in if i < 0 then -1 else i + 1))"

definition drop_index :: "'a list \<Rightarrow> int \<Rightarrow> 'a list" where
  "drop_index xs index = map snd (filter (\<lambda>(i, _). int i \<noteq> index) (enumerate 0 xs))"

text \<open>The branch on the move's flags in \<^verbatim>\<open>case 'undo'\<close>; \<open>update\<close> is what
  \<^verbatim>\<open>pieceUidTracker.pop()\<close> returned.\<close>

definition undo_uids :: "(string \<rightharpoonup> string) \<Rightarrow> ChessMove \<Rightarrow> MoveUID option \<Rightarrow> (string \<rightharpoonup> string)" where
  "undo_uids uids mv update =
     (if capture_like mv then
        (let u1 = uids(m_from mv := uids (m_to mv))
         in case update of
              None \<Rightarrow> u1(m_to mv := None)
            | Some upd \<Rightarrow>
                if truthy_str (taken upd) then u1(m_to mv := taken upd)
                else u1(m_to mv := None))
      else if has_flag mv (CHR ''k'') then
        (let castleFrom = CHR ''h'' # rank_of (m_from mv);
             castleTo = CHR ''f'' # rank_of (m_from mv)
         in relocate (relocate uids (m_to mv) (m_from mv)) castleTo castleFrom)
      else if has_flag mv (CHR ''q'') then
        (let castleFrom = CHR ''a'' # rank_of (m_from mv);
             castleTo = CHR ''d'' # rank_of (m_from mv)
         in relocate (relocate uids (m_to mv) (m_from mv)) castleTo castleFrom)
      else
        relocate uids (m_to mv) (m_from mv))"

definition reduce_undo :: "'c Chess \<Rightarrow> ChessState \<Rightarrow> 'c \<Rightarrow> real \<Rightarrow> ChessState \<times> 'c" where
  "reduce_undo E state0 chess time =
     (let state = checkTimers E state0 chess time
      in if truthy_str (complete state) then (state, chess)
         else case chess_undo E chess of
                None \<Rightarrow> (state, chess)
              | Some (mv, chess') \<Rightarrow>
                  (case moves state of
                     None \<Rightarrow> (state, chess')
                   | Some ms \<Rightarrow>
                       let update = (if pieceUidTracker state = [] then None
                                     else Some (last (pieceUidTracker state)));
                           state = state\<lparr>moves := Some (butlast ms),
                                         pieceUidTracker := butlast (pieceUidTracker state)\<rparr>;
                           state = state\<lparr>pieceUids := undo_uids (pieceUids state) mv update\<rparr>;
                           state = (case m_captured mv of
                                      None \<Rightarrow> state
                                    | Some cp \<Rightarrow>
                                        let oldCaptured = at_color (captured state) (m_color mv);
                                            index = indexOf oldCaptured cp
                                        in state\<lparr>captured := put_color (captured state) (m_color mv)
                                                                (drop_index oldCaptured index)\<rparr>);
                           state = state\<lparr>redoStack := redoStack state @ [mv]\<rparr>
                       in (endMove E state chess' time, chess')))"

subsection \<open>redo\<close>

definition reduce_redo :: "'c Chess \<Rightarrow> ChessState \<Rightarrow> 'c \<Rightarrow> real \<Rightarrow> ChessState \<times> 'c" where
  "reduce_redo E state0 chess time =
     (let state = checkTimers E state0 chess time
      in if truthy_str (complete state) then (state, chess)
         else if redoStack state = [] then (state, chess)
         else
           let mv = last (redoStack state);
               state = state\<lparr>redoStack := butlast (redoStack state)\<rparr>;
               redo = redoStack state;
               (state, chess') = reduce_move E state chess (m_from mv) (m_to mv) (m_promotion mv) time
           in (state\<lparr>redoStack := redo\<rparr>, chess'))"

subsection \<open>The dispatch\<close>

fun chessReducer ::
  "'c Chess \<Rightarrow> ChessState \<Rightarrow> ChessAction + InternalChessAction \<Rightarrow> 'c \<Rightarrow> ChessState \<times> 'c" where
  "chessReducer E state (Inl (Move from to promotion time)) chess =
     reduce_move E state chess from to promotion time"
| "chessReducer E state (Inl (Undo time)) chess = reduce_undo E state chess time"
| "chessReducer E state (Inl (Redo time)) chess = reduce_redo E state chess time"
| "chessReducer E state (Inl (Pause time)) chess = (state, chess)"
| "chessReducer E state (Inl (CheckTimers time)) chess = (checkTimers E state chess time, chess)"
| "chessReducer E state (Inr (EndMove time)) chess = (endMove E state chess time, chess)"

section \<open>Sequences of actions\<close>

text \<open>The caller keeps one state and one engine handle and feeds each public action to the
  reducer with both.\<close>

fun run :: "'c Chess \<Rightarrow> ChessState \<times> 'c \<Rightarrow> ChessAction list \<Rightarrow> ChessState \<times> 'c" where
  "run E sc [] = sc"
| "run E sc (a # as) = run E (chessReducer E (fst sc) (Inl a) (snd sc)) as"

section \<open>Notions the properties are stated with\<close>

subsection \<open>The completion tag encoding, as the specification words it\<close>

text \<open>The tags of the conditions that hold, in the order timed-out, checkmate, draw,
  insufficient material, threefold repetition; no value when none holds.\<close>

definition completion_tags :: "bool \<Rightarrow> bool \<Rightarrow> bool \<Rightarrow> bool \<Rightarrow> bool \<Rightarrow> string option" where
  "completion_tags timedOut checkmate draw insufficient threefold =
     (let tags = map snd (filter fst
                   [(timedOut, CHR ''t''), (checkmate, CHR ''c''), (draw, CHR ''d''),
                    (insufficient, CHR ''m''), (threefold, CHR ''r'')])
      in if tags = [] then None else Some tags)"

subsection \<open>Clocks\<close>

text \<open>The side whose clock \<^verbatim>\<open>checkTimers\<close> looks at: White when White's timestamp is
  truthy, otherwise Black when Black's is.\<close>

definition running :: "Timer PerColor \<Rightarrow> Color option" where
  "running tms =
     (if truthy_num (t_set (of_w tms)) then Some White
      else if truthy_num (t_set (of_b tms)) then Some Black else None)"

text \<open>The running clock has no time left at \<open>now\<close>.\<close>

definition expired :: "Timer PerColor \<Rightarrow> real \<Rightarrow> bool" where
  "expired tms now =
     (case running tms of
        None \<Rightarrow> False
      | Some col \<Rightarrow>
          (case t_set (at_color tms col) of
             None \<Rightarrow> False
           | Some st \<Rightarrow> t_time (at_color tms col) - (now - st) / 1000 \<le> 0))"

definition forceExpire :: "Timer PerColor \<Rightarrow> Timer PerColor" where
  "forceExpire tms =
     PerColor
       \<lparr>t_set = None, t_time = (if truthy_num (t_set (of_w tms)) then 0 else t_time (of_w tms))\<rparr>
       \<lparr>t_set = None, t_time = (if truthy_num (t_set (of_b tms)) then 0 else t_time (of_b tms))\<rparr>"

text \<open>No remaining time is negative and at most one clock runs.\<close>

definition timers_ok :: "Timer PerColor \<Rightarrow> bool" where
  "timers_ok tms =
     (0 \<le> t_time (of_w tms) \<and> 0 \<le> t_time (of_b tms)
      \<and> \<not> (truthy_num (t_set (of_w tms)) \<and> truthy_num (t_set (of_b tms))))"

definition without_timestamps :: "ChessState \<Rightarrow> ChessState" where
  "without_timestamps s =
     s\<lparr>timers := PerColor ((of_w (timers s))\<lparr>t_set := None\<rparr>)
                          ((of_b (timers s))\<lparr>t_set := None\<rparr>)\<rparr>"

subsection \<open>The identity map and a move\<close>

text \<open>For a castling move, with the rook's two squares on the files \<open>vacant\<close> and
  \<open>other\<close> of the king's rank: the one on file \<open>vacant\<close> carries no identifier, and
  neither is a square of the king's move.\<close>

definition rook_fit :: "(string \<rightharpoonup> string) \<Rightarrow> ChessMove \<Rightarrow> char \<Rightarrow> char \<Rightarrow> bool" where
  "rook_fit uids mv vacant other =
     (uids (vacant # rank_of (m_from mv)) = None
      \<and> vacant # rank_of (m_from mv) \<notin> {m_from mv, m_to mv}
      \<and> other # rank_of (m_from mv) \<notin> {m_from mv, m_to mv}
      \<and> vacant \<noteq> other)"

text \<open>The identity map before a move agrees with the move: the destination carries no
  identifier unless the move is capture-like (and then no empty one), and the castling
  rook's destination carries none.\<close>

definition uids_fit :: "(string \<rightharpoonup> string) \<Rightarrow> ChessMove \<Rightarrow> bool" where
  "uids_fit uids mv =
     (m_from mv \<noteq> m_to mv
      \<and> (if capture_like mv then uids (m_to mv) \<noteq> Some []
         else uids (m_to mv) = None
              \<and> (if has_flag mv (CHR ''k'') then rook_fit uids mv (CHR ''f'') (CHR ''h'')
                 else if has_flag mv (CHR ''q'') then rook_fit uids mv (CHR ''d'') (CHR ''a'')
                 else True)))"

text \<open>The identity map after a move, and the record tracked for it, agree with the move:
  the source square carries no identifier, the record names no captured identifier unless
  the move is capture-like (and then no empty one), and the castling rook's source carries
  none.\<close>

definition uids_moved :: "(string \<rightharpoonup> string) \<Rightarrow> ChessMove \<Rightarrow> MoveUID \<Rightarrow> bool" where
  "uids_moved uids mv tracked =
     (m_from mv \<noteq> m_to mv \<and> uids (m_from mv) = None
      \<and> (if capture_like mv then taken tracked \<noteq> Some []
         else taken tracked = None
              \<and> (if has_flag mv (CHR ''k'') then rook_fit uids mv (CHR ''h'') (CHR ''f'')
                 else if has_flag mv (CHR ''q'') then rook_fit uids mv (CHR ''a'') (CHR ''d'')
                 else True)))"

text \<open>The fields that \<^verbatim>\<open>endMove\<close> derives from the engine are the ones it would derive
  now.\<close>

definition in_step :: "'c Chess \<Rightarrow> ChessState \<Rightarrow> 'c \<Rightarrow> bool" where
  "in_step E s c =
     (turn s = chess_turn E c
      \<and> board s = getBoard E c (pieceUids s)
      \<and> check s = put_color (PerColor False False) (chess_turn E c) (chess_isCheck E c)
      \<and> complete s = getCompleteFlag E c False)"

definition history :: "ChessState \<Rightarrow> ChessMove list" where
  "history s = (case moves s of None \<Rightarrow> [] | Some ms \<Rightarrow> ms)"

definition add_captured :: "PieceSymbol list PerColor \<Rightarrow> ChessMove \<Rightarrow> PieceSymbol list PerColor" where
  "add_captured cap mv =
     (case m_captured mv of
        None \<Rightarrow> cap
      | Some cp \<Rightarrow> put_color cap (m_color mv) (at_color cap (m_color mv) @ [cp]))"

definition remove_captured :: "PieceSymbol list PerColor \<Rightarrow> ChessMove \<Rightarrow> PieceSymbol list PerColor" where
  "remove_captured cap mv =
     (case m_captured mv of
        None \<Rightarrow> cap
      | Some cp \<Rightarrow> put_color cap (m_color mv) (remove1 cp (at_color cap (m_color mv))))"

section \<open>A recorded game as the rules engine\<close>

text \<open>
  For concrete runs the engine is instantiated by the replay of a recorded game: the list
  of the \<^verbatim>\<open>Move\<close> objects chess.js returns for the game, each with the predicates the
  engine reports after it, and the number of moves played so far. The replay accepts the
  next recorded move and rejects every other one, \<^verbatim>\<open>undo\<close> steps back, and the board is the
  start position with the played moves applied (captures, en passant, castling and
  promotion relocate and remove pieces as in chess). The reducer asks for the position
  string of a new engine only, so the replay answers with the one of the start position.
\<close>

record Verdict =
  v_check :: bool
  v_checkmate :: bool
  v_draw :: bool
  v_insufficient :: bool
  v_threefold :: bool

record Replay =
  r_line :: "(ChessMove \<times> Verdict) list"
  r_played :: nat

type_synonym Placement = "(PieceSymbol \<times> Color) option list list"

definition start_position :: Placement where
  "start_position =
     [map (\<lambda>t. Some (t, Black)) [Rook, Knight, Bishop, Queen, King, Bishop, Knight, Rook],
      replicate 8 (Some (Pawn, Black)),
      replicate 8 None, replicate 8 None, replicate 8 None, replicate 8 None,
      replicate 8 (Some (Pawn, White)),
      map (\<lambda>t. Some (t, White)) [Rook, Knight, Bishop, Queen, King, Bishop, Knight, Rook]]"

fun index_in :: "string \<Rightarrow> char \<Rightarrow> nat" where
  "index_in [] x = 0"
| "index_in (y # ys) x = (if y = x then 0 else Suc (index_in ys x))"

definition col_of :: "string \<Rightarrow> nat" where
  "col_of sq = index_in ''abcdefgh'' (hd sq)"

definition row_of :: "string \<Rightarrow> nat" where
  "row_of sq = index_in ''87654321'' (hd (tl sq))"

definition square_name :: "nat \<Rightarrow> nat \<Rightarrow> string" where
  "square_name r k = [''abcdefgh'' ! k, ''87654321'' ! r]"

definition get_at :: "Placement \<Rightarrow> nat \<Rightarrow> nat \<Rightarrow> (PieceSymbol \<times> Color) option" where
  "get_at pos r k = pos ! r ! k"

definition set_at :: "Placement \<Rightarrow> nat \<Rightarrow> nat \<Rightarrow> (PieceSymbol \<times> Color) option \<Rightarrow> Placement" where
  "set_at pos r k v = pos[r := (pos ! r)[k := v]]"

definition apply_move :: "ChessMove \<Rightarrow> Placement \<Rightarrow> Placement" where
  "apply_move mv pos =
     (let fr = row_of (m_from mv); fc = col_of (m_from mv);
          tr = row_of (m_to mv); tc = col_of (m_to mv);
          pc = (case m_promotion mv of
                  None \<Rightarrow> get_at pos fr fc
                | Some pr \<Rightarrow> Some (pr, m_color mv));
          pos = set_at (set_at pos fr fc None) tr tc pc;
          pos = (if has_flag mv (CHR ''e'') then set_at pos fr tc None else pos);
          pos = (if has_flag mv (CHR ''k'')
                 then set_at (set_at pos fr 7 None) fr 5 (get_at pos fr 7) else pos);
          pos = (if has_flag mv (CHR ''q'')
                 then set_at (set_at pos fr 0 None) fr 3 (get_at pos fr 0) else pos)
      in pos)"

definition replay_position :: "Replay \<Rightarrow> Placement" where
  "replay_position c = fold apply_move (map fst (take (r_played c) (r_line c))) start_position"

definition replay_board :: "Replay \<Rightarrow> Cell option list list" where
  "replay_board c =
     map (\<lambda>(r, row).
            map (\<lambda>(k, x). case x of
                     None \<Rightarrow> None
                   | Some (t, col) \<Rightarrow>
                       Some \<lparr>c_square = square_name r k, c_type = t, c_color = col\<rparr>)
                (enumerate 0 row))
         (enumerate 0 (replay_position c))"

definition replay_move ::
  "Replay \<Rightarrow> string \<Rightarrow> string \<Rightarrow> PieceSymbol option \<Rightarrow> (ChessMove \<times> Replay) option" where
  "replay_move c f t p =
     (if r_played c < length (r_line c) then
        (let mv = fst (r_line c ! r_played c)
         in if m_from mv = f \<and> m_to mv = t \<and> m_promotion mv = p
            then Some (mv, c\<lparr>r_played := r_played c + 1\<rparr>) else None)
      else None)"

definition replay_undo :: "Replay \<Rightarrow> (ChessMove \<times> Replay) option" where
  "replay_undo c =
     (if 0 < r_played c
      then Some (fst (r_line c ! (r_played c - 1)), c\<lparr>r_played := r_played c - 1\<rparr>)
      else None)"

definition quiet :: Verdict where
  "quiet = \<lparr>v_check = False, v_checkmate = False, v_draw = False,
            v_insufficient = False, v_threefold = False\<rparr>"

definition replay_verdict :: "Replay \<Rightarrow> Verdict" where
  "replay_verdict c =
     (if 0 < r_played c \<and> r_played c \<le> length (r_line c)
      then snd (r_line c ! (r_played c - 1))
      else quiet)"

definition start_fen :: string where
  "start_fen = ''rnbqkbnr/pppppppp/8/8/8/8/PPPPPPPP/RNBQKBNR w KQkq - 0 1''"

definition replay :: "(ChessMove \<times> Verdict) list \<Rightarrow> Replay Chess" where
  "replay line =
     \<lparr>chess_new = \<lparr>r_line = line, r_played = 0\<rparr>,
      chess_move = replay_move,
      chess_undo = replay_undo,
      chess_turn = (\<lambda>c. if even (r_played c) then White else Black),
      chess_isCheck = (\<lambda>c. v_check (replay_verdict c)),
      chess_isCheckmate = (\<lambda>c. v_checkmate (replay_verdict c)),
      chess_isDraw = (\<lambda>c. v_draw (replay_verdict c)),
      chess_isInsufficientMaterial = (\<lambda>c. v_insufficient (replay_verdict c)),
      chess_isThreefoldRepetition = (\<lambda>c. v_threefold (replay_verdict c)),
      chess_board = replay_board,
      chess_fen = (\<lambda>c. start_fen)\<rparr>"

text \<open>A recorded move without promotion: colour, piece, squares, captured piece, flags
  (\<open>n\<close> quiet, \<open>b\<close> two-square pawn push, \<open>c\<close> capture, \<open>e\<close> en passant).\<close>

definition recorded_move ::
  "Color \<Rightarrow> PieceSymbol \<Rightarrow> string \<Rightarrow> string \<Rightarrow> PieceSymbol option \<Rightarrow> string \<Rightarrow> ChessMove" where
  "recorded_move col pc f t cap fl =
     \<lparr>m_color = col, m_from = f, m_to = t, m_piece = pc, m_captured = cap,
      m_promotion = None, m_flags = fl\<rparr>"

subsection \<open>The recorded games\<close>

text \<open>1. e4 e5\<close>

definition open_game :: "(ChessMove \<times> Verdict) list" where
  "open_game =
     [(recorded_move White Pawn ''e2'' ''e4'' None ''b'', quiet),
      (recorded_move Black Pawn ''e7'' ''e5'' None ''b'', quiet)]"

text \<open>1. e4 a6 2. e5 d5 3. exd6 e.p.\<close>

definition ep_game :: "(ChessMove \<times> Verdict) list" where
  "ep_game =
     [(recorded_move White Pawn ''e2'' ''e4'' None ''b'', quiet),
      (recorded_move Black Pawn ''a7'' ''a6'' None ''n'', quiet),
      (recorded_move White Pawn ''e4'' ''e5'' None ''n'', quiet),
      (recorded_move Black Pawn ''d7'' ''d5'' None ''b'', quiet),
      (recorded_move White Pawn ''e5'' ''d6'' (Some Pawn) ''e'', quiet)]"

text \<open>1. f3 e5 2. g4 Qh4 mate\<close>

definition fools_mate :: "(ChessMove \<times> Verdict) list" where
  "fools_mate =
     [(recorded_move White Pawn ''f2'' ''f3'' None ''n'', quiet),
      (recorded_move Black Pawn ''e7'' ''e5'' None ''b'', quiet),
      (recorded_move White Pawn ''g2'' ''g4'' None ''b'', quiet),
      (recorded_move Black Queen ''d8'' ''h4'' None ''n'',
       quiet\<lparr>v_check := True, v_checkmate := True\<rparr>)]"

text \<open>1. e4 d5 2. exd5 Nf6 3. d4 Nxd5 4. c4 e5 5. cxd5 exd4 6. Qxd4: White captures a pawn,
  a knight and a pawn.\<close>

definition capture_game :: "(ChessMove \<times> Verdict) list" where
  "capture_game =
     [(recorded_move White Pawn ''e2'' ''e4'' None ''b'', quiet),
      (recorded_move Black Pawn ''d7'' ''d5'' None ''b'', quiet),
      (recorded_move White Pawn ''e4'' ''d5'' (Some Pawn) ''c'', quiet),
      (recorded_move Black Knight ''g8'' ''f6'' None ''n'', quiet),
      (recorded_move White Pawn ''d2'' ''d4'' None ''b'', quiet),
      (recorded_move Black Knight ''f6'' ''d5'' (Some Pawn) ''c'', quiet),
      (recorded_move White Pawn ''c2'' ''c4'' None ''b'', quiet),
      (recorded_move Black Pawn ''e7'' ''e5'' None ''b'', quiet),
      (recorded_move White Pawn ''c4'' ''d5'' (Some Knight) ''c'', quiet),
      (recorded_move Black Pawn ''e5'' ''d4'' (Some Pawn) ''c'', quiet),
      (recorded_move White Queen ''d1'' ''d4'' (Some Pawn) ''c'', quiet)]"

definition exd5 :: ChessMove where
  "exd5 = recorded_move White Pawn ''e4'' ''d5'' (Some Pawn) ''c''"

subsection \<open>Concrete states\<close>

definition locals :: "Player PerColor" where
  "locals = PerColor \<lparr>p_name = ''WHITE'', p_type = Local\<rparr> \<lparr>p_name = ''BLACK'', p_type = Local\<rparr>"

text \<open>A new game with clocks of \<open>len\<close> minutes, and its new engine.\<close>

definition fresh :: "'c Chess \<Rightarrow> real \<Rightarrow> ChessState \<times> 'c" where
  "fresh E len = (createChessState E len locals, chess_new E)"

definition first_move :: "ChessState \<times> Replay" where
  "first_move =
     run (replay open_game) (fresh (replay open_game) 5) [Move ''e2'' ''e4'' None 1000]"

definition undone_opening :: "ChessState \<times> Replay" where
  "undone_opening =
     run (replay open_game) (fresh (replay open_game) 5)
       [Move ''e2'' ''e4'' None 1000, Undo 2000]"

definition before_en_passant :: "ChessState \<times> Replay" where
  "before_en_passant =
     run (replay ep_game) (fresh (replay ep_game) 5)
       [Move ''e2'' ''e4'' None 1000, Move ''a7'' ''a6'' None 2000,
        Move ''e4'' ''e5'' None 3000, Move ''d7'' ''d5'' None 4000]"

definition after_en_passant :: "ChessState \<times> Replay" where
  "after_en_passant =
     chessReducer (replay ep_game) (fst before_en_passant)
       (Inl (Move ''e5'' ''d6'' None 5000)) (snd before_en_passant)"

definition before_mate :: "ChessState \<times> Replay" where
  "before_mate =
     run (replay fools_mate) (fresh (replay fools_mate) 5)
       [Move ''f2'' ''f3'' None 1000, Move ''e7'' ''e5'' None 2000,
        Move ''g2'' ''g4'' None 3000]"

definition scandinavian :: "ChessState \<times> Replay" where
  "scandinavian =
     run (replay capture_game) (fresh (replay capture_game) 5)
       [Move ''e2'' ''e4'' None 1000, Move ''d7'' ''d5'' None 2000]"

definition after_exd5 :: "ChessState \<times> Replay" where
  "after_exd5 =
     run (replay capture_game) (fresh (replay capture_game) 5)
       [Move ''e2'' ''e4'' None 1000, Move ''d7'' ''d5'' None 2000,
        Move ''e4'' ''d5'' None 3000]"

definition full_capture_game :: "ChessState \<times> Replay" where
  "full_capture_game =
     run (replay capture_game) (fresh (replay capture_game) 5)
       [Move ''e2'' ''e4'' None 1000, Move ''d7'' ''d5'' None 2000,
        Move ''e4'' ''d5'' None 3000, Move ''g8'' ''f6'' None 4000,
        Move ''d2'' ''d4'' None 5000, Move ''f6'' ''d5'' None 6000,
        Move ''c2'' ''c4'' None 7000, Move ''e7'' ''e5'' None 8000,
        Move ''c4'' ''d5'' None 9000, Move ''e5'' ''d4'' None 10000,
        Move ''d1'' ''d4'' None 11000]"

text \<open>The 64 square names, the distinct identifiers the identity map holds on them, and
  the number of occupied squares of an engine board.\<close>

definition board_squares :: "string list" where
  "board_squares = concat (map (\<lambda>r. map (square_name r) [0..<8]) [0..<8])"

definition identifiers :: "(string \<rightharpoonup> string) \<Rightarrow> string list" where
  "identifiers uids = remdups (List.map_filter uids board_squares)"

definition occupied :: "Cell option list list \<Rightarrow> nat" where
  "occupied b = length (filter (\<lambda>x. x \<noteq> None) (concat b))"

section \<open>Lemmas\<close>

subsection \<open>The timeout check\<close>

lemma checkTimers_live: "\<not> expired (timers s) now \<Longrightarrow> checkTimers E s c now = s"
  by (auto simp: checkTimers_def expired_def running_def Let_def split: option.splits if_splits)

lemma checkTimers_expired:
  "expired (timers s) now \<Longrightarrow>
   checkTimers E s c now = s\<lparr>complete := getCompleteFlag E c True, timers := forceExpire (timers s)\<rparr>"
  by (auto simp: checkTimers_def expired_def running_def forceExpire_def Let_def split: option.splits if_splits)

lemma getCompleteFlag_timeout_truthy: "truthy_str (getCompleteFlag E c True)"
  by (simp add: getCompleteFlag_def add_flag_def Let_def)

lemma forceExpire_running:
  "running tms = Some col \<Longrightarrow> t_time (at_color (forceExpire tms) col) = 0"
  by (cases col) (auto simp: running_def forceExpire_def split: if_splits)


subsection \<open>The clocks stay well-formed\<close>

lemma timers_ok_forceExpire: "timers_ok tms \<Longrightarrow> timers_ok (forceExpire tms)"
  by (auto simp: timers_ok_def forceExpire_def)

lemma timers_endMove_ok:
  "timers_ok (timers s) \<Longrightarrow> \<not> expired (timers s) now \<Longrightarrow> timers_ok (timers (endMove E s c now))"
  by (auto simp: endMove_def timers_ok_def expired_def running_def Let_def split: option.splits if_splits)

lemma timers_checkTimers_ok:
  "timers_ok (timers s) \<Longrightarrow> timers_ok (timers (checkTimers E s c now))"
  by (cases "expired (timers s) now")
     (simp_all add: checkTimers_live checkTimers_expired timers_ok_forceExpire)

lemma timers_reduce_move_ok:
  assumes "timers_ok (timers s)"
  shows "timers_ok (timers (fst (reduce_move E s c f t p now)))"
proof (cases "expired (timers s) now")
  case True
  then show ?thesis
    using assms
    by (simp add: reduce_move_def checkTimers_expired getCompleteFlag_timeout_truthy
        timers_ok_forceExpire)
next
  case False
  then have ct: "checkTimers E s c now = s" by (rule checkTimers_live)
  show ?thesis
  proof (cases "chess_move E c f t p")
    case None
    then show ?thesis using assms by (simp add: reduce_move_def ct)
  next
    case (Some r)
    obtain mv c' where r: "r = (mv, c')" by (cases r)
    obtain u tr where mu: "move_uids (pieceUids s) mv = (u, tr)" by (cases "move_uids (pieceUids s) mv")
    show ?thesis using assms False
      by (auto simp: reduce_move_def ct Some r mu Let_def intro!: timers_endMove_ok
          split: option.splits)
  qed
qed

lemma timers_reduce_undo_ok:
  assumes "timers_ok (timers s)"
  shows "timers_ok (timers (fst (reduce_undo E s c now)))"
proof (cases "expired (timers s) now")
  case True
  then show ?thesis
    using assms
    by (simp add: reduce_undo_def checkTimers_expired getCompleteFlag_timeout_truthy
        timers_ok_forceExpire)
next
  case False
  then have ct: "checkTimers E s c now = s" by (rule checkTimers_live)
  show ?thesis using assms False
    by (auto simp: reduce_undo_def ct Let_def intro!: timers_endMove_ok
        split: option.splits)
qed

lemma timers_reduce_redo_ok:
  assumes "timers_ok (timers s)"
  shows "timers_ok (timers (fst (reduce_redo E s c now)))"
proof (cases "expired (timers s) now")
  case True
  then show ?thesis
    using assms
    by (simp add: reduce_redo_def checkTimers_expired getCompleteFlag_timeout_truthy
        timers_ok_forceExpire)
next
  case False
  then have ct: "checkTimers E s c now = s" by (rule checkTimers_live)
  have "timers_ok (timers (fst (reduce_move E (s\<lparr>redoStack := butlast (redoStack s)\<rparr>) c f t p now)))"
    for f t p
    using assms by (intro timers_reduce_move_ok) simp
  then show ?thesis using assms
    by (auto simp: reduce_redo_def ct Let_def split: prod.splits) (metis fst_conv)
qed

lemma timers_chessReducer_ok:
  "timers_ok (timers s) \<Longrightarrow> timers_ok (timers (fst (chessReducer E s (Inl a) c)))"
  by (cases a)
     (simp_all add: timers_reduce_move_ok timers_reduce_undo_ok timers_reduce_redo_ok
        timers_checkTimers_ok)

lemma run_timers_ok:
  "timers_ok (timers (fst sc)) \<Longrightarrow> timers_ok (timers (fst (run E sc acts)))"
  by (induction acts arbitrary: sc) (simp_all add: timers_chessReducer_ok)


subsection \<open>Relocating identifiers\<close>

lemma relocate_back:
  "src \<noteq> dst \<Longrightarrow> m dst = None \<Longrightarrow> relocate (relocate m src dst) dst src = m"
  by (auto simp: relocate_def fun_eq_iff)

lemma relocate_commute:
  "a \<noteq> c \<Longrightarrow> a \<noteq> d \<Longrightarrow> b \<noteq> c \<Longrightarrow> b \<noteq> d \<Longrightarrow>
   relocate (relocate m a b) c d = relocate (relocate m c d) a b"
  by (auto simp: relocate_def fun_eq_iff)

lemma relocate_other: "x \<noteq> src \<Longrightarrow> x \<noteq> dst \<Longrightarrow> relocate m src dst x = m x"
  by (simp add: relocate_def)

lemma castle_back:
  assumes "f \<noteq> t" and "cf \<noteq> f" and "cf \<noteq> t" and "ct \<noteq> f" and "ct \<noteq> t" and "cf \<noteq> ct"
    and "m t = None" and "m ct = None"
  shows "relocate (relocate (relocate (relocate m f t) cf ct) t f) ct cf = m"
proof -
  have "relocate (relocate m f t) cf ct = relocate (relocate m cf ct) f t"
    using assms by (intro relocate_commute) auto
  moreover have "relocate m cf ct t = None"
    using assms by (simp add: relocate_other)
  ultimately have "relocate (relocate (relocate m f t) cf ct) t f = relocate m cf ct"
    using assms(1) by (simp add: relocate_back)
  then show ?thesis using assms by (simp add: relocate_back)
qed

lemma capture_back:
  "src \<noteq> dst \<Longrightarrow> ((relocate m src dst)(src := relocate m src dst dst))(dst := m dst) = m"
  by (auto simp: relocate_def fun_eq_iff)

lemma undo_move_uids:
  assumes fit: "uids_fit uids mv" and mv: "move_uids uids mv = (u, tracked)"
  shows "undo_uids u mv (Some tracked) = uids"
proof -
  have ne: "m_from mv \<noteq> m_to mv" using fit by (simp add: uids_fit_def)
  show ?thesis
  proof (cases "capture_like mv")
    case True
    have u: "u = relocate uids (m_from mv) (m_to mv)"
      and t: "taken tracked = uids (m_to mv)"
      using mv True by (auto simp: move_uids_def)
    have ok: "uids (m_to mv) \<noteq> Some []" using fit True by (simp add: uids_fit_def)
    show ?thesis
    proof (cases "uids (m_to mv)")
      case None
      then show ?thesis using True ne capture_back [OF ne, of uids]
        by (simp add: undo_uids_def u t)
    next
      case (Some x)
      with ok have "x \<noteq> []" by simp
      then have "truthy_str (uids (m_to mv))" by (simp add: Some)
      then show ?thesis using True capture_back [OF ne, of uids]
        by (simp add: undo_uids_def u t)
    qed
  next
    case nc: False
    then have empty: "uids (m_to mv) = None" using fit by (simp add: uids_fit_def)
    show ?thesis
    proof (cases "has_flag mv (CHR ''k'')")
      case True
      then have rf: "rook_fit uids mv (CHR ''f'') (CHR ''h'')"
        using fit nc by (simp add: uids_fit_def)
      have u: "u = relocate (relocate uids (m_from mv) (m_to mv))
                     (CHR ''h'' # rank_of (m_from mv)) (CHR ''f'' # rank_of (m_from mv))"
        using mv nc True by (auto simp: move_uids_def Let_def)
      have "relocate (relocate u (m_to mv) (m_from mv))
              (CHR ''f'' # rank_of (m_from mv)) (CHR ''h'' # rank_of (m_from mv)) = uids"
        unfolding u using rf ne empty by (intro castle_back) (auto simp: rook_fit_def)
      then show ?thesis using nc True by (simp add: undo_uids_def Let_def)
    next
      case nk: False
      show ?thesis
      proof (cases "has_flag mv (CHR ''q'')")
        case True
        then have rf: "rook_fit uids mv (CHR ''d'') (CHR ''a'')"
          using fit nc nk by (simp add: uids_fit_def)
        have u: "u = relocate (relocate uids (m_from mv) (m_to mv))
                       (CHR ''a'' # rank_of (m_from mv)) (CHR ''d'' # rank_of (m_from mv))"
          using mv nc nk True by (auto simp: move_uids_def Let_def)
        have "relocate (relocate u (m_to mv) (m_from mv))
                (CHR ''d'' # rank_of (m_from mv)) (CHR ''a'' # rank_of (m_from mv)) = uids"
          unfolding u using rf ne empty by (intro castle_back) (auto simp: rook_fit_def)
        then show ?thesis using nc nk True by (simp add: undo_uids_def Let_def)
      next
        case False
        have u: "u = relocate uids (m_from mv) (m_to mv)"
          using mv nc nk False by (auto simp: move_uids_def)
        show ?thesis using nc nk False ne empty
          by (simp add: undo_uids_def u relocate_back)
      qed
    qed
  qed
qed

lemma move_undo_uids:
  assumes fit: "uids_moved u mv tracked"
  shows "move_uids (undo_uids u mv (Some tracked)) mv = (u, tracked)"
proof -
  have ne: "m_from mv \<noteq> m_to mv" and vac: "u (m_from mv) = None"
    using fit by (simp_all add: uids_moved_def)
  show ?thesis
  proof (cases "capture_like mv")
    case True
    then have ok: "taken tracked \<noteq> Some []" using fit by (simp add: uids_moved_def)
    have tr: "tracked = \<lparr>taken = taken tracked\<rparr>" by simp
    show ?thesis
    proof (cases "taken tracked")
      case None
      have "relocate (u(m_from mv := u (m_to mv), m_to mv := None)) (m_from mv) (m_to mv) = u"
        using ne vac by (auto simp: relocate_def fun_eq_iff)
      then show ?thesis using True None ne tr
        by (simp add: move_uids_def undo_uids_def)
    next
      case (Some x)
      with ok have "x \<noteq> []" by simp
      moreover have "relocate (u(m_from mv := u (m_to mv), m_to mv := Some x)) (m_from mv) (m_to mv) = u"
        using ne vac by (auto simp: relocate_def fun_eq_iff)
      ultimately show ?thesis using True Some ne tr
        by (simp add: move_uids_def undo_uids_def)
    qed
  next
    case nc: False
    then have tr: "tracked = \<lparr>taken = None\<rparr>" using fit by (simp add: uids_moved_def)
    show ?thesis
    proof (cases "has_flag mv (CHR ''k'')")
      case True
      then have rf: "rook_fit u mv (CHR ''h'') (CHR ''f'')"
        using fit nc by (simp add: uids_moved_def)
      have "relocate (relocate (relocate (relocate u (m_to mv) (m_from mv))
              (CHR ''f'' # rank_of (m_from mv)) (CHR ''h'' # rank_of (m_from mv)))
              (m_from mv) (m_to mv))
              (CHR ''h'' # rank_of (m_from mv)) (CHR ''f'' # rank_of (m_from mv)) = u"
        using rf ne vac by (intro castle_back) (auto simp: rook_fit_def)
      then show ?thesis using nc True tr by (simp add: move_uids_def undo_uids_def Let_def)
    next
      case nk: False
      show ?thesis
      proof (cases "has_flag mv (CHR ''q'')")
        case True
        then have rf: "rook_fit u mv (CHR ''a'') (CHR ''d'')"
          using fit nc nk by (simp add: uids_moved_def)
        have "relocate (relocate (relocate (relocate u (m_to mv) (m_from mv))
                (CHR ''d'' # rank_of (m_from mv)) (CHR ''a'' # rank_of (m_from mv)))
                (m_from mv) (m_to mv))
                (CHR ''a'' # rank_of (m_from mv)) (CHR ''d'' # rank_of (m_from mv)) = u"
          using rf ne vac by (intro castle_back) (auto simp: rook_fit_def)
        then show ?thesis using nc nk True tr
          by (simp add: move_uids_def undo_uids_def Let_def)
      next
        case False
        then show ?thesis using nc nk ne vac tr
          by (simp add: move_uids_def undo_uids_def relocate_back)
      qed
    qed
  qed
qed


text \<open>A capture-like move (a capture or an en-passant capture) records the identifier
  found at the destination and changes the map at the source and the destination only.\<close>

lemma capture_like_record:
  "capture_like mv \<Longrightarrow> snd (move_uids uids mv) = \<lparr>taken = uids (m_to mv)\<rparr>"
  by (simp add: move_uids_def)

lemma capture_like_elsewhere:
  "capture_like mv \<Longrightarrow> sq \<noteq> m_from mv \<Longrightarrow> sq \<noteq> m_to mv \<Longrightarrow>
   fst (move_uids uids mv) sq = uids sq"
  by (simp add: move_uids_def relocate_def)

subsection \<open>indexOf and the filter on the index\<close>

lemma indexOf_range: "- 1 \<le> indexOf xs x"
  by (induction xs) (auto simp: Let_def)

lemma indexOf_absent: "x \<notin> set xs \<Longrightarrow> indexOf xs x = - 1"
  by (induction xs) (auto simp: Let_def)

lemma indexOf_present: "x \<in> set xs \<Longrightarrow> 0 \<le> indexOf xs x"
  by (induction xs) (auto simp: Let_def)

lemma filter_enumerate_above:
  "k < int n \<Longrightarrow> filter (\<lambda>(i, _). int i \<noteq> k) (enumerate n xs) = enumerate n xs"
  by (induction xs arbitrary: n) auto

lemma drop_index_shift:
  "x \<in> set xs \<Longrightarrow>
   map snd (filter (\<lambda>(i, _). int i \<noteq> int n + indexOf xs x) (enumerate n xs)) = remove1 x xs"
proof (induction xs arbitrary: n)
  case Nil
  then show ?case by simp
next
  case (Cons y ys)
  show ?case
  proof (cases "y = x")
    case True
    then show ?thesis
      using filter_enumerate_above [of "int n" "Suc n" ys] by simp
  next
    case False
    with Cons.prems have mem: "x \<in> set ys" by simp
    then have nn: "0 \<le> indexOf ys x" by (rule indexOf_present)
    have eq: "int n + (indexOf ys x + 1) = int (Suc n) + indexOf ys x" by simp
    have "indexOf (y # ys) x = indexOf ys x + 1" using False nn by (simp add: Let_def)
    then have "map snd (filter (\<lambda>(i, _). int i \<noteq> int n + indexOf (y # ys) x) (enumerate n (y # ys)))
        = y # map snd (filter (\<lambda>(i, _). int i \<noteq> int (Suc n) + indexOf ys x) (enumerate (Suc n) ys))"
      using nn unfolding eq [symmetric] by simp
    then show ?thesis using False Cons.IH [OF mem, of "Suc n"] by simp
  qed
qed

lemma drop_index_indexOf: "drop_index xs (indexOf xs x) = remove1 x xs"
proof (cases "x \<in> set xs")
  case True
  then show ?thesis using drop_index_shift [of x xs 0] by (simp add: drop_index_def)
next
  case False
  then show ?thesis
    using filter_enumerate_above [of "- 1" 0 xs]
    by (simp add: drop_index_def indexOf_absent remove1_idem)
qed


subsection \<open>The captured sets\<close>

lemma at_put_color: "at_color (put_color r col v) col' = (if col = col' then v else at_color r col')"
  by (cases col; cases col') simp_all

lemma put_put_color: "put_color (put_color r col v) col v' = put_color r col v'"
  by (cases col) simp_all

lemma put_at_color: "put_color r col (at_color r col) = r"
  by (cases col) simp_all

lemma remove_add_captured_mset:
  "mset (at_color (remove_captured (add_captured cap mv) mv) col) = mset (at_color cap col)"
  by (cases "m_captured mv")
     (simp_all add: remove_captured_def add_captured_def at_put_color put_put_color)

lemma remove_add_captured:
  assumes "\<forall>cp. m_captured mv = Some cp \<longrightarrow> cp \<notin> set (at_color cap (m_color mv))"
  shows "remove_captured (add_captured cap mv) mv = cap"
  using assms
  by (cases "m_captured mv")
     (simp_all add: remove_captured_def add_captured_def at_put_color put_put_color
        remove1_append put_at_color)

lemma add_remove_captured_mset:
  assumes "\<forall>cp. m_captured mv = Some cp \<longrightarrow> cp \<in> set (at_color cap (m_color mv))"
  shows "mset (at_color (add_captured (remove_captured cap mv) mv) col) = mset (at_color cap col)"
  using assms
  by (cases "m_captured mv")
     (auto simp: remove_captured_def add_captured_def at_put_color put_put_color)


subsection \<open>What each transition does when it is not stopped by the clock\<close>

lemma createChessState_fields:
  "timers (createChessState E len pl)
     = PerColor \<lparr>t_set = None, t_time = len * 60\<rparr> \<lparr>t_set = None, t_time = len * 60\<rparr>"
  "complete (createChessState E len pl) = None"
  "redoStack (createChessState E len pl) = []"
  "moves (createChessState E len pl) = Some []"
  "captured (createChessState E len pl) = PerColor [] []"
  "turn (createChessState E len pl) = White"
  by (simp_all add: createChessState_def Let_def)

lemma endMove_fields:
  "pieceUids (endMove E s c t) = pieceUids s"
  "pieceUidTracker (endMove E s c t) = pieceUidTracker s"
  "moves (endMove E s c t) = moves s"
  "captured (endMove E s c t) = captured s"
  "redoStack (endMove E s c t) = redoStack s"
  "fen (endMove E s c t) = fen s"
  "paused (endMove E s c t) = paused s"
  "players (endMove E s c t) = players s"
  "ChessState.more (endMove E s c t) = ChessState.more s"
  "turn (endMove E s c t) = chess_turn E c"
  "board (endMove E s c t) = getBoard E c (pieceUids s)"
  "check (endMove E s c t) = put_color (PerColor False False) (chess_turn E c) (chess_isCheck E c)"
  "complete (endMove E s c t) = getCompleteFlag E c False"
  by (simp_all add: endMove_def Let_def)

lemma endMove_timers_cong:
  "timers s = timers s' \<Longrightarrow> timers (endMove E s c t) = timers (endMove E s' c t)"
  by (simp add: endMove_def Let_def)

lemma reduce_move_rejected:
  assumes "\<not> expired (timers s) now" and "\<not> truthy_str (complete s)"
    and "chess_move E c f t p = None"
  shows "reduce_move E s c f t p now = (s\<lparr>redoStack := []\<rparr>, c)"
  using assms by (simp add: reduce_move_def checkTimers_live)

lemma reduce_move_accepted:
  assumes "\<not> expired (timers s) now" and "\<not> truthy_str (complete s)"
    and "chess_move E c f t p = Some (mv, c')"
  shows "reduce_move E s c f t p now =
           (endMove E (s\<lparr>redoStack := [],
                         pieceUids := fst (move_uids (pieceUids s) mv),
                         pieceUidTracker := pieceUidTracker s @ [snd (move_uids (pieceUids s) mv)],
                         moves := Some (history s @ [mv]),
                         captured := add_captured (captured s) mv\<rparr>) c' now, c')"
  using assms
  by (cases "m_captured mv")
     (simp_all add: reduce_move_def checkTimers_live history_def add_captured_def
        case_prod_beta Let_def)

lemma reduce_undo_accepted:
  assumes "\<not> expired (timers s) now" and "\<not> truthy_str (complete s)"
    and "chess_undo E c = Some (mv, c')" and "moves s = Some ms"
  shows "reduce_undo E s c now =
           (endMove E (s\<lparr>moves := Some (butlast ms),
                         pieceUidTracker := butlast (pieceUidTracker s),
                         pieceUids := undo_uids (pieceUids s) mv
                            (if pieceUidTracker s = [] then None
                             else Some (last (pieceUidTracker s))),
                         captured := remove_captured (captured s) mv,
                         redoStack := redoStack s @ [mv]\<rparr>) c' now, c')"
  using assms
  by (cases "m_captured mv")
     (simp_all add: reduce_undo_def checkTimers_live remove_captured_def
        drop_index_indexOf Let_def)

lemma reduce_redo_unfold:
  assumes "\<not> expired (timers s) now" and "\<not> truthy_str (complete s)" and "redoStack s \<noteq> []"
  shows "reduce_redo E s c now =
           ((fst (reduce_move E (s\<lparr>redoStack := butlast (redoStack s)\<rparr>) c
                    (m_from (last (redoStack s))) (m_to (last (redoStack s)))
                    (m_promotion (last (redoStack s))) now))
              \<lparr>redoStack := butlast (redoStack s)\<rparr>,
            snd (reduce_move E (s\<lparr>redoStack := butlast (redoStack s)\<rparr>) c
                    (m_from (last (redoStack s))) (m_to (last (redoStack s)))
                    (m_promotion (last (redoStack s))) now))"
  using assms by (simp add: reduce_redo_def checkTimers_live Let_def case_prod_beta)


section \<open>The claims\<close>

text \<open>
  C1. A Move that the engine rejects does not leave the state as it was: the reducer
  empties \<^verbatim>\<open>redoStack\<close> before it asks the engine. After 1. e4 and an Undo the redo
  stack holds the undone move; the Move e2-e5, which the engine rejects, returns a state
  whose redo stack is empty.
\<close>

theorem illegal_move_clears_redoStack:
  "chess_move (replay open_game) (snd undone_opening) ''e2'' ''e5'' None = None
   \<and> redoStack (fst undone_opening) = [recorded_move White Pawn ''e2'' ''e4'' None ''b'']
   \<and> redoStack (fst (chessReducer (replay open_game) (fst undone_opening)
                       (Inl (Move ''e2'' ''e5'' None 3000)) (snd undone_opening))) = []"
  by code_simp

text \<open>
  C2. The en-passant capture 3. exd6 after 1. e4 a6 2. e5 d5: the identity undo record
  holds no "taken" identifier (it is read at the destination d6, which is empty), and the
  identifier \<open>11\<close> of the captured pawn stays in the identity map at d5, a square that is
  empty on the engine's board.
\<close>

theorem en_passant_taken_from_destination:
  "pieceUids (fst before_en_passant) ''d5'' = Some ''11''
   \<and> pieceUids (fst before_en_passant) ''e5'' = Some ''52''
   \<and> pieceUids (fst before_en_passant) ''d6'' = None
   \<and> moves (fst after_en_passant)
       = Some (map fst (take 4 ep_game) @ [recorded_move White Pawn ''e5'' ''d6'' (Some Pawn) ''e''])
   \<and> last (pieceUidTracker (fst after_en_passant)) = \<lparr>taken = None\<rparr>
   \<and> pieceUids (fst after_en_passant) ''d6'' = Some ''52''
   \<and> pieceUids (fst after_en_passant) ''d5'' = Some ''11''
   \<and> chess_board (replay ep_game) (snd after_en_passant) ! 3 ! 3 = None"
  by code_simp

text \<open>
  C3. After the same en-passant capture the identity map holds 32 distinct identifiers
  while the engine's board has 31 occupied squares; before the capture both numbers
  are 32.
\<close>

theorem en_passant_leaves_stale_identifier:
  "length (identifiers (pieceUids (fst before_en_passant))) = 32
   \<and> occupied (chess_board (replay ep_game) (snd before_en_passant)) = 32
   \<and> length (identifiers (pieceUids (fst after_en_passant))) = 32
   \<and> occupied (chess_board (replay ep_game) (snd after_en_passant)) = 31"
  by code_simp

text \<open>
  C4, as amended. Let a state be in step with the engine (turn and board projection), not
  complete and not timed out, with an identity map that fits the move; let the engine
  accept a Move that does not complete the game, and let an Undo follow before the running
  clock expires, the engine undoing that move. Then the Undo restores the prior identity
  map, board projection and turn and the engine state; each side's Captured Set is
  restored as a multiset, and exactly when the move captured nothing or a piece type that
  was not yet in the mover's Captured Set.
\<close>

theorem undo_after_move_round_trip:
  assumes nc: "\<not> truthy_str (complete s)" and live1: "\<not> expired (timers s) t1"
    and mv: "chess_move E c f t p = Some (mv, c1)"
    and open1: "getCompleteFlag E c1 False = None"
    and live2: "\<not> expired (timers (fst (run E (s, c) [Move f t p t1]))) t2"
    and und: "chess_undo E c1 = Some (mv, c)"
    and fit: "uids_fit (pieceUids s) mv"
    and step: "turn s = chess_turn E c" "board s = getBoard E c (pieceUids s)"
  shows "pieceUids (fst (run E (s, c) [Move f t p t1, Undo t2])) = pieceUids s
       \<and> board (fst (run E (s, c) [Move f t p t1, Undo t2])) = board s
       \<and> turn (fst (run E (s, c) [Move f t p t1, Undo t2])) = turn s
       \<and> (\<forall>col. mset (at_color (captured (fst (run E (s, c) [Move f t p t1, Undo t2]))) col)
                 = mset (at_color (captured s) col))
       \<and> ((\<forall>cp. m_captured mv = Some cp \<longrightarrow> cp \<notin> set (at_color (captured s) (m_color mv)))
            \<longrightarrow> captured (fst (run E (s, c) [Move f t p t1, Undo t2])) = captured s)
       \<and> snd (run E (s, c) [Move f t p t1, Undo t2]) = c"
proof -
  define s' where "s' = s\<lparr>redoStack := [],
                         pieceUids := fst (move_uids (pieceUids s) mv),
                         pieceUidTracker := pieceUidTracker s @ [snd (move_uids (pieceUids s) mv)],
                         moves := Some (history s @ [mv]),
                         captured := add_captured (captured s) mv\<rparr>"
  define s1 where "s1 = endMove E s' c1 t1"
  have m1: "reduce_move E s c f t p t1 = (s1, c1)"
    unfolding s1_def s'_def using live1 nc mv by (rule reduce_move_accepted)
  have l2: "\<not> expired (timers s1) t2" using live2 by (simp add: m1)
  have nc1: "\<not> truthy_str (complete s1)" by (simp add: s1_def endMove_fields open1)
  have ms1: "moves s1 = Some (history s @ [mv])" by (simp add: s1_def endMove_fields s'_def)
  define s1' where "s1' = s1\<lparr>moves := Some (butlast (history s @ [mv])),
                         pieceUidTracker := butlast (pieceUidTracker s1),
                         pieceUids := undo_uids (pieceUids s1) mv
                            (if pieceUidTracker s1 = [] then None
                             else Some (last (pieceUidTracker s1))),
                         captured := remove_captured (captured s1) mv,
                         redoStack := redoStack s1 @ [mv]\<rparr>"
  have m2: "reduce_undo E s1 c1 t2 = (endMove E s1' c t2, c)"
    unfolding s1'_def using l2 nc1 und ms1 by (rule reduce_undo_accepted)
  have r: "run E (s, c) [Move f t p t1, Undo t2] = (endMove E s1' c t2, c)"
    by (simp add: m1 m2)
  have "undo_uids (fst (move_uids (pieceUids s) mv)) mv (Some (snd (move_uids (pieceUids s) mv)))
          = pieceUids s"
    using fit by (rule undo_move_uids) simp
  then have u: "pieceUids s1' = pieceUids s"
    by (simp add: s1'_def s1_def endMove_fields s'_def)
  have cap: "captured s1' = remove_captured (add_captured (captured s) mv) mv"
    by (simp add: s1'_def s1_def endMove_fields s'_def)
  show ?thesis
    unfolding r
    by (simp add: endMove_fields u cap step remove_add_captured_mset remove_add_captured)
qed

text \<open>
  The theorem at 2. exd5 after 1. e4 d5, undone one second later.
\<close>

theorem undo_after_move_round_trip_witness:
  "pieceUids (fst (run (replay capture_game) (fst scandinavian, snd scandinavian)
                     [Move ''e4'' ''d5'' None 3000, Undo 4000])) = pieceUids (fst scandinavian)
   \<and> board (fst (run (replay capture_game) (fst scandinavian, snd scandinavian)
                     [Move ''e4'' ''d5'' None 3000, Undo 4000])) = board (fst scandinavian)
   \<and> turn (fst (run (replay capture_game) (fst scandinavian, snd scandinavian)
                     [Move ''e4'' ''d5'' None 3000, Undo 4000])) = turn (fst scandinavian)
   \<and> captured (fst (run (replay capture_game) (fst scandinavian, snd scandinavian)
                     [Move ''e4'' ''d5'' None 3000, Undo 4000])) = captured (fst scandinavian)"
proof -
  have h1: "\<not> truthy_str (complete (fst scandinavian))" by code_simp
  have h2: "\<not> expired (timers (fst scandinavian)) 3000" by code_simp
  have h3: "chess_move (replay capture_game) (snd scandinavian) ''e4'' ''d5'' None
              = Some (exd5, (snd scandinavian)\<lparr>r_played := 3\<rparr>)" by code_simp
  have h4: "getCompleteFlag (replay capture_game) ((snd scandinavian)\<lparr>r_played := 3\<rparr>) False = None"
    by code_simp
  have h5: "\<not> expired (timers (fst (run (replay capture_game) (fst scandinavian, snd scandinavian)
                     [Move ''e4'' ''d5'' None 3000]))) 4000" by code_simp
  have h6: "chess_undo (replay capture_game) ((snd scandinavian)\<lparr>r_played := 3\<rparr>)
              = Some (exd5, snd scandinavian)" by code_simp
  have h7: "uids_fit (pieceUids (fst scandinavian)) exd5" by code_simp
  have h8: "turn (fst scandinavian) = chess_turn (replay capture_game) (snd scandinavian)"
    by code_simp
  have h9: "board (fst scandinavian)
              = getBoard (replay capture_game) (snd scandinavian) (pieceUids (fst scandinavian))"
    by code_simp
  have h10: "\<forall>cp. m_captured exd5 = Some cp
               \<longrightarrow> cp \<notin> set (at_color (captured (fst scandinavian)) (m_color exd5))"
  proof -
    have "at_color (captured (fst scandinavian)) (m_color exd5) = []" by code_simp
    then show ?thesis by simp
  qed
  show ?thesis
    using undo_after_move_round_trip [OF h1 h2 h3 h4 h5 h6 h7 h8 h9] h10 by blast
qed

text \<open>
  C4 as stated fails for a Move that completes the game: after 1. f3 e5 2. g4 the Move
  Qh4 is accepted and mates, the state is complete, and the Undo that follows is rejected:
  it is still White's turn and the queen's identifier is not back on d8.
\<close>

theorem undo_after_checkmate_rejected:
  "chess_move (replay fools_mate) (snd before_mate) ''d8'' ''h4'' None \<noteq> None
   \<and> turn (fst before_mate) = Black
   \<and> pieceUids (fst before_mate) ''d8'' = Some ''3''
   \<and> complete (fst (run (replay fools_mate) before_mate [Move ''d8'' ''h4'' None 4000])) = Some ''c''
   \<and> turn (fst (run (replay fools_mate) before_mate
                   [Move ''d8'' ''h4'' None 4000, Undo 5000])) = White
   \<and> pieceUids (fst (run (replay fools_mate) before_mate
                   [Move ''d8'' ''h4'' None 4000, Undo 5000])) ''d8'' = None"
  by code_simp

text \<open>
  C5, as amended. Let a state be in step with the engine, with the engine's last move as
  the last entry of its history, an identity map and undo record that fit this move, and
  the move's captured piece in the mover's Captured Set. If neither the Undo nor the Redo
  that follows is stopped by the clock or by completion, and the engine replays the move,
  then Redo reproduces every field of the state before the Undo except the clocks (their
  timestamps and their remaining times) and the Captured Sets, which are reproduced as
  multisets, and exactly when the move captured nothing. The Undo pushes the move on the
  redo stack; the Redo moves it from the top of the redo stack to the end of the history
  and leaves the rest of the redo stack as it was.
\<close>

theorem redo_after_undo_reproduces:
  assumes live2: "\<not> expired (timers x) t2" and nc: "\<not> truthy_str (complete x)"
    and step: "in_step E x c1"
    and und: "chess_undo E c1 = Some (mv, c0)"
    and open0: "getCompleteFlag E c0 False = None"
    and live3: "\<not> expired (timers (fst (run E (x, c1) [Undo t2]))) t3"
    and again: "chess_move E c0 (m_from mv) (m_to mv) (m_promotion mv) = Some (mv, c1)"
    and hist: "moves x = Some ms" "ms \<noteq> []" "last ms = mv"
    and trk: "pieceUidTracker x \<noteq> []"
    and fit: "uids_moved (pieceUids x) mv (last (pieceUidTracker x))"
    and cap: "\<forall>cp. m_captured mv = Some cp \<longrightarrow> cp \<in> set (at_color (captured x) (m_color mv))"
  shows "(fst (run E (x, c1) [Undo t2, Redo t3]))\<lparr>timers := timers x, captured := captured x\<rparr> = x
       \<and> (\<forall>col. mset (at_color (captured (fst (run E (x, c1) [Undo t2, Redo t3]))) col)
                 = mset (at_color (captured x) col))
       \<and> (m_captured mv = None
            \<longrightarrow> captured (fst (run E (x, c1) [Undo t2, Redo t3])) = captured x)
       \<and> redoStack (fst (run E (x, c1) [Undo t2])) = redoStack x @ [mv]
       \<and> redoStack (fst (run E (x, c1) [Undo t2, Redo t3])) = redoStack x
       \<and> moves (fst (run E (x, c1) [Undo t2])) = Some (butlast ms)
       \<and> moves (fst (run E (x, c1) [Undo t2, Redo t3])) = Some (butlast ms @ [mv])
       \<and> snd (run E (x, c1) [Undo t2, Redo t3]) = c1"
proof -
  define x' where "x' = x\<lparr>moves := Some (butlast ms),
                         pieceUidTracker := butlast (pieceUidTracker x),
                         pieceUids := undo_uids (pieceUids x) mv
                            (if pieceUidTracker x = [] then None
                             else Some (last (pieceUidTracker x))),
                         captured := remove_captured (captured x) mv,
                         redoStack := redoStack x @ [mv]\<rparr>"
  define y where "y = endMove E x' c0 t2"
  have m1: "reduce_undo E x c1 t2 = (y, c0)"
    unfolding y_def x'_def using live2 nc und hist(1) by (rule reduce_undo_accepted)
  have l3: "\<not> expired (timers y) t3" using live3 by (simp add: m1)
  have ncy: "\<not> truthy_str (complete y)" by (simp add: y_def endMove_fields open0)
  have rsy: "redoStack y = redoStack x @ [mv]" by (simp add: y_def endMove_fields x'_def)
  define y2 where "y2 = y\<lparr>redoStack := redoStack x\<rparr>"
  have l3': "\<not> expired (timers y2) t3" using l3 by (simp add: y2_def)
  have ncy2: "\<not> truthy_str (complete y2)" using ncy by (simp add: y2_def)
  define y2' where "y2' = y2\<lparr>redoStack := [],
                         pieceUids := fst (move_uids (pieceUids y2) mv),
                         pieceUidTracker := pieceUidTracker y2 @ [snd (move_uids (pieceUids y2) mv)],
                         moves := Some (history y2 @ [mv]),
                         captured := add_captured (captured y2) mv\<rparr>"
  have m2: "reduce_move E y2 c0 (m_from mv) (m_to mv) (m_promotion mv) t3
              = (endMove E y2' c1 t3, c1)"
    unfolding y2'_def using l3' ncy2 again by (rule reduce_move_accepted)
  have m3: "reduce_redo E y c0 t3 = ((endMove E y2' c1 t3)\<lparr>redoStack := redoStack x\<rparr>, c1)"
    using reduce_redo_unfold [OF l3 ncy, of E c0] m2 by (simp add: rsy y2_def)
  have r1: "run E (x, c1) [Undo t2] = (y, c0)" by (simp add: m1)
  have r2: "run E (x, c1) [Undo t2, Redo t3]
              = ((endMove E y2' c1 t3)\<lparr>redoStack := redoStack x\<rparr>, c1)"
    by (simp add: m1 m3)
  have uy: "pieceUids y2 = undo_uids (pieceUids x) mv (Some (last (pieceUidTracker x)))"
    using trk by (simp add: y2_def y_def endMove_fields x'_def)
  have mu: "move_uids (pieceUids y2) mv = (pieceUids x, last (pieceUidTracker x))"
    unfolding uy using fit by (rule move_undo_uids)
  have u: "pieceUids y2' = pieceUids x" by (simp add: y2'_def mu)
  have "pieceUidTracker y2' = butlast (pieceUidTracker x) @ [last (pieceUidTracker x)]"
    by (simp add: y2'_def mu) (simp add: y2_def y_def endMove_fields x'_def)
  then have tr: "pieceUidTracker y2' = pieceUidTracker x"
    using trk by simp
  have hs: "moves y2' = Some (butlast ms @ [mv])"
    by (simp add: y2'_def y2_def y_def endMove_fields x'_def history_def)
  have hs': "butlast ms @ [mv] = ms" using hist(2,3) by (metis append_butlast_last_id)
  have cp: "captured y2' = add_captured (remove_captured (captured x) mv) mv"
    by (simp add: y2'_def y2_def y_def endMove_fields x'_def)
  have rest: "fen y2' = fen x" "paused y2' = paused x" "players y2' = players x"
    "ChessState.more y2' = ChessState.more x"
    by (simp_all add: y2'_def y2_def y_def endMove_fields x'_def)
  have eq: "(endMove E y2' c1 t3)\<lparr>redoStack := redoStack x, timers := timers x,
              captured := captured x\<rparr> = x"
    using step
    by (intro ChessState.equality)
       (simp_all add: endMove_fields u tr hs hs' rest hist in_step_def)
  have nocap: "m_captured mv = None \<Longrightarrow> captured y2' = captured x"
    by (simp add: cp add_captured_def remove_captured_def)
  show ?thesis
    unfolding r1 r2
    using eq nocap
    by (simp add: endMove_fields cp add_remove_captured_mset [OF cap] rsy hs
        y_def x'_def)
qed

text \<open>
  The theorem at the state after 1. e4 d5 2. exd5, with Undo and Redo one and two seconds
  later.
\<close>

theorem redo_after_undo_reproduces_witness:
  "(fst (run (replay capture_game) (fst after_exd5, snd after_exd5) [Undo 4000, Redo 5000]))
      \<lparr>timers := timers (fst after_exd5), captured := captured (fst after_exd5)\<rparr> = fst after_exd5
   \<and> redoStack (fst (run (replay capture_game) (fst after_exd5, snd after_exd5) [Undo 4000]))
        = redoStack (fst after_exd5) @ [exd5]
   \<and> redoStack (fst (run (replay capture_game) (fst after_exd5, snd after_exd5)
                        [Undo 4000, Redo 5000])) = redoStack (fst after_exd5)
   \<and> snd (run (replay capture_game) (fst after_exd5, snd after_exd5) [Undo 4000, Redo 5000])
        = snd after_exd5"
proof -
  have h1: "\<not> expired (timers (fst after_exd5)) 4000" by code_simp
  have h2: "\<not> truthy_str (complete (fst after_exd5))" by code_simp
  have h3: "in_step (replay capture_game) (fst after_exd5) (snd after_exd5)" by code_simp
  have h4: "chess_undo (replay capture_game) (snd after_exd5)
              = Some (exd5, (snd after_exd5)\<lparr>r_played := 2\<rparr>)" by code_simp
  have h5: "getCompleteFlag (replay capture_game) ((snd after_exd5)\<lparr>r_played := 2\<rparr>) False = None"
    by code_simp
  have h6: "\<not> expired (timers (fst (run (replay capture_game) (fst after_exd5, snd after_exd5)
                                     [Undo 4000]))) 5000" by code_simp
  have h7: "chess_move (replay capture_game) ((snd after_exd5)\<lparr>r_played := 2\<rparr>)
              (m_from exd5) (m_to exd5) (m_promotion exd5) = Some (exd5, snd after_exd5)"
    by code_simp
  have h8: "moves (fst after_exd5) = Some (map fst (take 3 capture_game))" by code_simp
  have h9: "map fst (take 3 capture_game) \<noteq> []" by code_simp
  have h10: "last (map fst (take 3 capture_game)) = exd5" by code_simp
  have h11: "pieceUidTracker (fst after_exd5) \<noteq> []" by code_simp
  have h12: "uids_moved (pieceUids (fst after_exd5)) exd5 (last (pieceUidTracker (fst after_exd5)))"
    by code_simp
  have h13: "\<forall>cp. m_captured exd5 = Some cp
               \<longrightarrow> cp \<in> set (at_color (captured (fst after_exd5)) (m_color exd5))"
  proof -
    have "m_captured exd5 = Some Pawn" by code_simp
    moreover have "Pawn \<in> set (at_color (captured (fst after_exd5)) (m_color exd5))" by code_simp
    ultimately show ?thesis by simp
  qed
  show ?thesis
    using redo_after_undo_reproduces [OF h1 h2 h3 h4 h5 h6 h7 h8 h9 h10 h11 h12 h13] by blast
qed

text \<open>
  C5 as stated fails on the remaining times: after 1. e4 at 1000 ms, an Undo at 3000 ms and
  a Redo at 5000 ms leave White 298 seconds where White had 300 before the Undo, so the two
  states differ also when the timestamps are set aside.
\<close>

theorem redo_changes_remaining_time:
  "t_time (of_w (timers (fst first_move))) = 300
   \<and> t_time (of_w (timers (fst (run (replay open_game) first_move [Undo 3000, Redo 5000])))) = 298
   \<and> without_timestamps (fst (run (replay open_game) first_move [Undo 3000, Redo 5000]))
       \<noteq> without_timestamps (fst first_move)"
proof -
  have a: "t_time (of_w (timers (fst first_move))) = 300" by code_simp
  have b: "t_time (of_w (timers (fst (run (replay open_game) first_move [Undo 3000, Redo 5000]))))
             = 298"
    by code_simp
  have keep: "t_time (of_w (timers (without_timestamps s))) = t_time (of_w (timers s))" for s
    by (simp add: without_timestamps_def)
  have "without_timestamps (fst (run (replay open_game) first_move [Undo 3000, Redo 5000]))
          \<noteq> without_timestamps (fst first_move)"
  proof
    assume "without_timestamps (fst (run (replay open_game) first_move [Undo 3000, Redo 5000]))
              = without_timestamps (fst first_move)"
    then have "t_time (of_w (timers (without_timestamps
                  (fst (run (replay open_game) first_move [Undo 3000, Redo 5000])))))
                = t_time (of_w (timers (without_timestamps (fst first_move))))"
      by simp
    then have "(298::real) = 300" by (simp only: keep a b)
    then show False by simp
  qed
  with a b show ?thesis by simp
qed

text \<open>
  C6. Undoing a capture removes the first entry of that piece type from the mover's
  Captured Set, not the one the move appended: White's Captured Set is pawn, knight, pawn
  after 6. Qxd4, and knight, pawn after undoing 6. Qxd4.
\<close>

theorem undo_removes_earliest_capture:
  "at_color (captured (fst full_capture_game)) White = [Pawn, Knight, Pawn]
   \<and> last (redoStack (fst (run (replay capture_game) full_capture_game [Undo 12000])))
       = recorded_move White Queen ''d1'' ''d4'' (Some Pawn) ''c''
   \<and> at_color (captured (fst (run (replay capture_game) full_capture_game [Undo 12000]))) White
       = [Knight, Pawn]"
  by code_simp

text \<open>
  C7, as amended. In a game started with 5-minute clocks, for every engine that accepts
  e2-e4 and then e7-e5 with Black and then White to move and no terminal condition after
  the first move: after White's move at time 0 and Black's move at 2000 ms it is White's
  turn, White's clock is the one running (started at 2000 ms) with 300 seconds remaining,
  and Black's clock is stopped.
\<close>

theorem opening_moves_clocks:
  assumes m1: "chess_move E (chess_new E) ''e2'' ''e4'' None = Some (m1, c1)"
    and t1: "chess_turn E c1 = Black" and open1: "getCompleteFlag E c1 False = None"
    and m2: "chess_move E c1 ''e7'' ''e5'' None = Some (m2, c2)"
    and t2: "chess_turn E c2 = White"
  shows "turn (fst (run E (createChessState E 5 pl, chess_new E)
                 [Move ''e2'' ''e4'' None 0, Move ''e7'' ''e5'' None 2000])) = White
       \<and> of_w (timers (fst (run E (createChessState E 5 pl, chess_new E)
                 [Move ''e2'' ''e4'' None 0, Move ''e7'' ''e5'' None 2000])))
           = \<lparr>t_set = Some 2000, t_time = 300\<rparr>
       \<and> t_set (of_b (timers (fst (run E (createChessState E 5 pl, chess_new E)
                 [Move ''e2'' ''e4'' None 0, Move ''e7'' ''e5'' None 2000])))) = None"
proof -
  define s0 where "s0 = createChessState E 5 pl"
  have tm0: "timers s0 = PerColor \<lparr>t_set = None, t_time = 300\<rparr> \<lparr>t_set = None, t_time = 300\<rparr>"
    by (simp add: s0_def createChessState_fields)
  have l0: "\<not> expired (timers s0) 0" by (simp add: tm0 expired_def running_def)
  have nc0: "\<not> truthy_str (complete s0)" by (simp add: s0_def createChessState_fields)
  define s0' where "s0' = s0\<lparr>redoStack := [],
                         pieceUids := fst (move_uids (pieceUids s0) m1),
                         pieceUidTracker := pieceUidTracker s0 @ [snd (move_uids (pieceUids s0) m1)],
                         moves := Some (history s0 @ [m1]),
                         captured := add_captured (captured s0) m1\<rparr>"
  define s1 where "s1 = endMove E s0' c1 0"
  have r1: "reduce_move E s0 (chess_new E) ''e2'' ''e4'' None 0 = (s1, c1)"
    unfolding s1_def s0'_def using l0 nc0 m1 by (rule reduce_move_accepted)
  have tm1: "timers s1 = PerColor \<lparr>t_set = None, t_time = 300\<rparr> \<lparr>t_set = Some 0, t_time = 300\<rparr>"
    by (simp add: s1_def endMove_def t1 s0'_def tm0)
  have l1: "\<not> expired (timers s1) 2000" by (simp add: tm1 expired_def running_def)
  have nc1: "\<not> truthy_str (complete s1)" by (simp add: s1_def endMove_fields open1)
  define s1' where "s1' = s1\<lparr>redoStack := [],
                         pieceUids := fst (move_uids (pieceUids s1) m2),
                         pieceUidTracker := pieceUidTracker s1 @ [snd (move_uids (pieceUids s1) m2)],
                         moves := Some (history s1 @ [m2]),
                         captured := add_captured (captured s1) m2\<rparr>"
  have r2: "reduce_move E s1 c1 ''e7'' ''e5'' None 2000 = (endMove E s1' c2 2000, c2)"
    unfolding s1'_def using l1 nc1 m2 by (rule reduce_move_accepted)
  have r: "run E (createChessState E 5 pl, chess_new E)
             [Move ''e2'' ''e4'' None 0, Move ''e7'' ''e5'' None 2000] = (endMove E s1' c2 2000, c2)"
    using r1 r2 by (simp add: s0_def)
  have "timers s1' = timers s1" by (simp add: s1'_def)
  then have "timers (endMove E s1' c2 2000)
      = PerColor \<lparr>t_set = Some 2000, t_time = 300\<rparr> \<lparr>t_set = None, t_time = 300\<rparr>"
    by (simp add: endMove_def t2 tm1)
  then show ?thesis unfolding r by (simp add: endMove_fields t2)
qed

text \<open>
  The theorem on the recorded game 1. e4 e5.
\<close>

theorem opening_moves_clocks_witness:
  "turn (fst (run (replay open_game) (createChessState (replay open_game) 5 locals,
                    chess_new (replay open_game))
                 [Move ''e2'' ''e4'' None 0, Move ''e7'' ''e5'' None 2000])) = White
   \<and> of_w (timers (fst (run (replay open_game) (createChessState (replay open_game) 5 locals,
                    chess_new (replay open_game))
                 [Move ''e2'' ''e4'' None 0, Move ''e7'' ''e5'' None 2000])))
       = \<lparr>t_set = Some 2000, t_time = 300\<rparr>
   \<and> t_set (of_b (timers (fst (run (replay open_game) (createChessState (replay open_game) 5 locals,
                    chess_new (replay open_game))
                 [Move ''e2'' ''e4'' None 0, Move ''e7'' ''e5'' None 2000])))) = None"
proof -
  have h1: "chess_move (replay open_game) (chess_new (replay open_game)) ''e2'' ''e4'' None
              = Some (recorded_move White Pawn ''e2'' ''e4'' None ''b'', \<lparr>r_line = open_game, r_played = 1\<rparr>)"
    by code_simp
  have h2: "chess_turn (replay open_game) \<lparr>r_line = open_game, r_played = 1\<rparr> = Black"
    by code_simp
  have h3: "getCompleteFlag (replay open_game) \<lparr>r_line = open_game, r_played = 1\<rparr> False = None"
    by code_simp
  have h4: "chess_move (replay open_game) \<lparr>r_line = open_game, r_played = 1\<rparr> ''e7'' ''e5'' None
              = Some (recorded_move Black Pawn ''e7'' ''e5'' None ''b'', \<lparr>r_line = open_game, r_played = 2\<rparr>)"
    by code_simp
  have h5: "chess_turn (replay open_game) \<lparr>r_line = open_game, r_played = 2\<rparr> = White"
    by code_simp
  show ?thesis
    using opening_moves_clocks [OF h1 h2 h3 h4 h5] by blast
qed

text \<open>
  C7 as stated fails: on the recorded game White's remaining time is 300 seconds, not
  about 298, and Black's clock is not running.
\<close>

theorem opening_scenario_clocks:
  "turn (fst (run (replay open_game) (fresh (replay open_game) 5)
                [Move ''e2'' ''e4'' None 0, Move ''e7'' ''e5'' None 2000])) = White
   \<and> timers (fst (run (replay open_game) (fresh (replay open_game) 5)
                [Move ''e2'' ''e4'' None 0, Move ''e7'' ''e5'' None 2000]))
       = PerColor \<lparr>t_set = Some 2000, t_time = 300\<rparr> \<lparr>t_set = None, t_time = 300\<rparr>
   \<and> \<not> truthy_num (t_set (of_b (timers (fst (run (replay open_game) (fresh (replay open_game) 5)
                [Move ''e2'' ''e4'' None 0, Move ''e7'' ''e5'' None 2000])))))"
  by code_simp

text \<open>
  C8. \<^verbatim>\<open>getCompleteFlag\<close> returns the concatenation of the one-character tags
  \<open>t\<close>, \<open>c\<close>, \<open>d\<close>, \<open>m\<close>, \<open>r\<close>, in that order, of the conditions timed-out, checkmate, draw,
  insufficient material and threefold repetition that hold: each tag occurs in the result
  exactly when its condition holds, and the result is absent exactly when no condition
  holds.
\<close>

theorem getCompleteFlag_encoding:
  "getCompleteFlag E chess outOfTime =
     completion_tags outOfTime (chess_isCheckmate E chess) (chess_isDraw E chess)
       (chess_isInsufficientMaterial E chess) (chess_isThreefoldRepetition E chess)
   \<and> (getCompleteFlag E chess outOfTime = None) =
       (\<not> (outOfTime \<or> chess_isCheckmate E chess \<or> chess_isDraw E chess
           \<or> chess_isInsufficientMaterial E chess \<or> chess_isThreefoldRepetition E chess))
   \<and> (CHR ''t'' \<in> set (case getCompleteFlag E chess outOfTime of None \<Rightarrow> [] | Some r \<Rightarrow> r))
       = outOfTime
   \<and> (CHR ''c'' \<in> set (case getCompleteFlag E chess outOfTime of None \<Rightarrow> [] | Some r \<Rightarrow> r))
       = chess_isCheckmate E chess
   \<and> (CHR ''d'' \<in> set (case getCompleteFlag E chess outOfTime of None \<Rightarrow> [] | Some r \<Rightarrow> r))
       = chess_isDraw E chess
   \<and> (CHR ''m'' \<in> set (case getCompleteFlag E chess outOfTime of None \<Rightarrow> [] | Some r \<Rightarrow> r))
       = chess_isInsufficientMaterial E chess
   \<and> (CHR ''r'' \<in> set (case getCompleteFlag E chess outOfTime of None \<Rightarrow> [] | Some r \<Rightarrow> r))
       = chess_isThreefoldRepetition E chess"
  by (simp add: getCompleteFlag_def completion_tags_def add_flag_def OUT_OF_TIME_def
      CHECKMATE_def DRAW_def INSUFFICIENT_MATERIAL_def THREEFOLD_REPITITION_def)

text \<open>
  C9. In every state reached from a new game with a non-negative clock length by any
  sequence of public actions, at any time values, neither side's remaining time is
  negative; and when \<^verbatim>\<open>checkTimers\<close> finds the running clock expired, it sets that side's
  remaining time to exactly zero.
\<close>

theorem remaining_time_never_negative:
  assumes "0 \<le> len"
  shows "0 \<le> t_time (of_w (timers (fst (run E (createChessState E len pl, chess_new E) acts))))
       \<and> 0 \<le> t_time (of_b (timers (fst (run E (createChessState E len pl, chess_new E) acts))))
       \<and> (\<forall>now col.
            expired (timers (fst (run E (createChessState E len pl, chess_new E) acts))) now
            \<and> running (timers (fst (run E (createChessState E len pl, chess_new E) acts))) = Some col
            \<longrightarrow> t_time (at_color (timers (fst (chessReducer E
                    (fst (run E (createChessState E len pl, chess_new E) acts))
                    (Inl (CheckTimers now))
                    (snd (run E (createChessState E len pl, chess_new E) acts))))) col) = 0)"
proof -
  have "timers_ok (timers (createChessState E len pl))"
    using assms by (simp add: createChessState_fields timers_ok_def)
  then have "timers_ok (timers (fst (run E (createChessState E len pl, chess_new E) acts)))"
    using run_timers_ok [of "(createChessState E len pl, chess_new E)" E acts] by simp
  then show ?thesis
    by (simp add: timers_ok_def checkTimers_expired forceExpire_running)
qed

text \<open>
  The theorem on a run of the recorded game 1. e4 e5 that ends with an expired clock.
\<close>

theorem remaining_time_never_negative_witness:
  "0 \<le> t_time (of_w (timers (fst (run (replay open_game)
           (createChessState (replay open_game) 5 locals, chess_new (replay open_game))
           [Move ''e2'' ''e4'' None 1000, Move ''e7'' ''e5'' None 3000, Undo 4000,
            CheckTimers 500000]))))
   \<and> 0 \<le> t_time (of_b (timers (fst (run (replay open_game)
           (createChessState (replay open_game) 5 locals, chess_new (replay open_game))
           [Move ''e2'' ''e4'' None 1000, Move ''e7'' ''e5'' None 3000, Undo 4000,
            CheckTimers 500000]))))"
  using remaining_time_never_negative [of 5 "replay open_game" locals
      "[Move ''e2'' ''e4'' None 1000, Move ''e7'' ''e5'' None 3000, Undo 4000,
        CheckTimers 500000]"]
  by simp

text \<open>
  C10. When neither clock has a timestamp, \<^verbatim>\<open>checkTimers\<close> returns the state (and the
  engine) unchanged at every time value.
\<close>

theorem checkTimers_before_first_move:
  assumes "t_set (of_w (timers state)) = None" and "t_set (of_b (timers state)) = None"
  shows "chessReducer E state (Inl (CheckTimers now)) chess = (state, chess)"
  using assms by (simp add: checkTimers_def)

text \<open>
  The theorem on a new game, a day later.
\<close>

theorem checkTimers_before_first_move_witness:
  "chessReducer (replay open_game) (createChessState (replay open_game) 5 locals)
     (Inl (CheckTimers 86400000)) (chess_new (replay open_game))
   = (createChessState (replay open_game) 5 locals, chess_new (replay open_game))"
  using checkTimers_before_first_move [of "createChessState (replay open_game) 5 locals"
      "replay open_game" 86400000 "chess_new (replay open_game)"]
  by (simp add: createChessState_fields)

end
